theory Spec2Isabelle
  imports Main
begin

text \<open>
  A model of \<open>csvToDb.py\<close>: the derivation of a table identifier from a path, the
  creation of one table per CSV file, the loading of its rows, and the command line.
  The files, the CSV reader and the database engine are modelled beside the program.
\<close>

section \<open>Strings and paths\<close>

text \<open>
  Python strings are modelled as \<open>string\<close> (lists of characters).  The path functions
  are those of \<open>posixpath\<close>: the separator is \<open>/\<close>, the extension separator is \<open>.\<close>.
\<close>

text \<open>\<open>s.rfind(c)\<close> for a one-character \<open>c\<close>: the highest index of \<open>c\<close> in \<open>s\<close>, or \<open>-1\<close>.\<close>

fun rfind :: "string \<Rightarrow> char \<Rightarrow> int" where
  "rfind [] c = -1"
| "rfind (x # xs) c =
     (let r = rfind xs c
      in if 0 \<le> r then r + 1 else if x = c then 0 else -1)"

text \<open>\<open>s.replace(old, new)\<close> for one-character \<open>old\<close> and \<open>new\<close>.\<close>

definition replace :: "string \<Rightarrow> char \<Rightarrow> char \<Rightarrow> string" where
  "replace s old new = map (\<lambda>c. if c = old then new else c) s"

text \<open>\<open>posixpath.basename\<close>: \<open>i = p.rfind('/') + 1; return p[i:]\<close>.\<close>

definition basename :: "string \<Rightarrow> string" where
  "basename p = (let i = rfind p CHR ''/'' + 1 in drop (nat i) p)"

text \<open>
  \<open>genericpath._splitext(p, '/', None, '.')\<close>, which is \<open>posixpath.splitext\<close>.  The loop
  skips the leading dots of the file name: the name splits at its last dot only when
  some character other than a dot stands before that dot.
\<close>

function splitext_loop :: "string \<Rightarrow> int \<Rightarrow> int \<Rightarrow> string \<times> string" where
  "splitext_loop p dotIndex filenameIndex =
     (if filenameIndex < dotIndex then
        (if take 1 (drop (nat filenameIndex) p) \<noteq> ''.''
         then (take (nat dotIndex) p, drop (nat dotIndex) p)
         else splitext_loop p dotIndex (filenameIndex + 1))
      else (p, []))"
  by pat_completeness auto
termination
  by (relation "measure (\<lambda>(p, dotIndex, filenameIndex). nat (dotIndex - filenameIndex))") auto

declare splitext_loop.simps [simp del]

definition splitext :: "string \<Rightarrow> string \<times> string" where
  "splitext p =
     (let sepIndex = rfind p CHR ''/'';
          dotIndex = rfind p CHR ''.''
      in if dotIndex > sepIndex then splitext_loop p dotIndex (sepIndex + 1)
         else (p, []))"

definition sanitize_table_name :: "string \<Rightarrow> string" where
  "sanitize_table_name file_path =
     (let base_name = basename file_path;
          table_name = fst (splitext base_name);
          table_name = replace (replace (replace table_name CHR ''.'' CHR ''_'')
                                  CHR '' '' CHR ''_'') CHR ''-'' CHR ''_''
      in table_name)"

text \<open>
  The identifier as the specification words it: the final path segment, without its last
  extension suffix when it has one, with every period, space and hyphen replaced by an
  underscore.  A segment has an extension suffix when a character other than a period
  stands before its last period.
\<close>

definition spec_final_segment :: "string \<Rightarrow> string" where
  "spec_final_segment p = rev (takeWhile (\<lambda>c. c \<noteq> CHR ''/'') (rev p))"

definition spec_remove_extension :: "string \<Rightarrow> string" where
  "spec_remove_extension s =
     (let ext = rev (takeWhile (\<lambda>c. c \<noteq> CHR ''.'') (rev s));
          stem = take (length s - length ext - 1) s
      in if CHR ''.'' \<in> set s \<and> list_ex (\<lambda>c. c \<noteq> CHR ''.'') stem then stem else s)"

definition spec_table_identifier :: "string \<Rightarrow> string" where
  "spec_table_identifier p =
     map (\<lambda>c. if c = CHR ''.'' \<or> c = CHR '' '' \<or> c = CHR ''-'' then CHR ''_'' else c)
       (spec_remove_extension (spec_final_segment p))"


section \<open>Errors and files\<close>

text \<open>
  Every exception the program can meet is a value.  \<open>OperationalError\<close> carries a short
  tag for the engine's message, \<open>IntegrityError\<close> the message of the violated constraint.
\<close>

datatype error =
    StopIteration
  | FileNotFoundError
  | PermissionError
  | UnicodeDecodeError
  | CsvError string
  | IntegrityError string
  | OperationalError string
  | ProgrammingError string

text \<open>
  A file opened with \<open>newline=''\<close> is iterated line by line, each line keeping its
  terminator.  \<open>file_lines\<close> are the lines the iteration yields; \<open>read_error\<close> is the
  error raised when the iteration goes past them (a decoding failure further down the
  file), or \<open>None\<close> when the file simply ends.  \<open>open\<close> itself fails with the error the
  file system gives for the path.
\<close>

record text_file =
  file_lines :: "string list"
  read_error :: "error option"

type_synonym filesystem = "string \<Rightarrow> error + text_file"

section \<open>The CSV reader\<close>

text \<open>
  \<open>csv.reader(csvfile)\<close> with the default dialect: delimiter \<open>,\<close>, quote character
  \<open>"\<close>, doubled quotes, no escape character, not strict.  The reader is the state
  machine of the \<open>_csv\<close> module; the states that need an escape character are left out,
  and a NUL character is an ordinary one (as from Python 3.11 on).
\<close>

datatype parser_state =
    START_RECORD | START_FIELD | IN_FIELD | IN_QUOTED_FIELD
  | QUOTE_IN_QUOTED_FIELD | EAT_CRNL

record reader =
  rd_state :: parser_state
  rd_fields :: "string list"
  rd_field :: string

definition field_limit :: nat where
  "field_limit = 131072"

definition parse_reset :: reader where
  "parse_reset = \<lparr>rd_state = START_RECORD, rd_fields = [], rd_field = []\<rparr>"

definition parse_save_field :: "reader \<Rightarrow> reader" where
  "parse_save_field rd = rd\<lparr>rd_fields := rd_fields rd @ [rd_field rd], rd_field := []\<rparr>"

definition parse_add_char :: "reader \<Rightarrow> char \<Rightarrow> error + reader" where
  "parse_add_char rd c =
     (if length (rd_field rd) \<ge> field_limit
      then Inl (CsvError ''field larger than field limit (131072)'')
      else Inr (rd\<lparr>rd_field := rd_field rd @ [c]\<rparr>))"

definition is_newline :: "char \<Rightarrow> bool" where
  "is_newline c = (c = CHR 0x0A \<or> c = CHR 0x0D)"

definition delimiter :: char where
  "delimiter = CHR '',''"

definition quotechar :: char where
  "quotechar = CHR 0x22"

text \<open>The end of a record: the field is saved; a line terminator is then skipped.\<close>

definition end_of_line :: "reader \<Rightarrow> char option \<Rightarrow> reader" where
  "end_of_line rd c =
     (parse_save_field rd)\<lparr>rd_state := (if c = None then START_RECORD else EAT_CRNL)\<rparr>"

text \<open>
  One step of the machine; \<open>None\<close> is the end-of-line mark the reader feeds after the
  characters of each line.
\<close>

definition start_field :: "reader \<Rightarrow> char option \<Rightarrow> error + reader" where
  "start_field rd c =
     (case c of
        None \<Rightarrow> Inr (end_of_line rd c)
      | Some ch \<Rightarrow>
          if is_newline ch then Inr (end_of_line rd c)
          else if ch = quotechar then Inr (rd\<lparr>rd_state := IN_QUOTED_FIELD\<rparr>)
          else if ch = delimiter then Inr (parse_save_field rd)
          else (case parse_add_char rd ch of
                  Inl e \<Rightarrow> Inl e
                | Inr rd' \<Rightarrow> Inr (rd'\<lparr>rd_state := IN_FIELD\<rparr>)))"

definition parse_process_char :: "reader \<Rightarrow> char option \<Rightarrow> error + reader" where
  "parse_process_char rd c =
     (case rd_state rd of
        START_RECORD \<Rightarrow>
          (case c of
             None \<Rightarrow> Inr rd
           | Some ch \<Rightarrow>
               if is_newline ch then Inr (rd\<lparr>rd_state := EAT_CRNL\<rparr>)
               else start_field (rd\<lparr>rd_state := START_FIELD\<rparr>) c)
      | START_FIELD \<Rightarrow> start_field rd c
      | IN_FIELD \<Rightarrow>
          (case c of
             None \<Rightarrow> Inr (end_of_line rd c)
           | Some ch \<Rightarrow>
               if is_newline ch then Inr (end_of_line rd c)
               else if ch = delimiter
                 then Inr ((parse_save_field rd)\<lparr>rd_state := START_FIELD\<rparr>)
               else parse_add_char rd ch)
      | IN_QUOTED_FIELD \<Rightarrow>
          (case c of
             None \<Rightarrow> Inr rd
           | Some ch \<Rightarrow>
               if ch = quotechar then Inr (rd\<lparr>rd_state := QUOTE_IN_QUOTED_FIELD\<rparr>)
               else parse_add_char rd ch)
      | QUOTE_IN_QUOTED_FIELD \<Rightarrow>
          (case c of
             None \<Rightarrow> Inr (end_of_line rd c)
           | Some ch \<Rightarrow>
               if ch = quotechar then
                 (case parse_add_char rd ch of
                    Inl e \<Rightarrow> Inl e
                  | Inr rd' \<Rightarrow> Inr (rd'\<lparr>rd_state := IN_QUOTED_FIELD\<rparr>))
               else if ch = delimiter
                 then Inr ((parse_save_field rd)\<lparr>rd_state := START_FIELD\<rparr>)
               else if is_newline ch then Inr (end_of_line rd c)
               else (case parse_add_char rd ch of
                       Inl e \<Rightarrow> Inl e
                     | Inr rd' \<Rightarrow> Inr (rd'\<lparr>rd_state := IN_FIELD\<rparr>)))
      | EAT_CRNL \<Rightarrow>
          (case c of
             None \<Rightarrow> Inr (rd\<lparr>rd_state := START_RECORD\<rparr>)
           | Some ch \<Rightarrow>
               if is_newline ch then Inr rd
               else Inl (CsvError ''new-line character seen in unquoted field'')))"

fun process_line :: "reader \<Rightarrow> string \<Rightarrow> error + reader" where
  "process_line rd [] = Inr rd"
| "process_line rd (c # cs) =
     (case parse_process_char rd (Some c) of
        Inl e \<Rightarrow> Inl e
      | Inr rd' \<Rightarrow> process_line rd' cs)"

text \<open>
  The loop of \<open>Reader_iternext\<close>: lines are taken from the file until the machine is
  back at \<open>START_RECORD\<close>.  When the file ends inside a record, the record read so far
  is returned; an error of the file iteration is passed on.
\<close>

fun iternext_loop ::
  "reader \<Rightarrow> string list \<Rightarrow> error option \<Rightarrow> error + (string list \<times> string list)" where
  "iternext_loop rd [] rerr =
     (case rerr of
        Some e \<Rightarrow> Inl e
      | None \<Rightarrow>
          if rd_field rd \<noteq> [] \<or> rd_state rd = IN_QUOTED_FIELD
          then Inr (rd_fields (parse_save_field rd), [])
          else Inl StopIteration)"
| "iternext_loop rd (l # ls) rerr =
     (case process_line rd l of
        Inl e \<Rightarrow> Inl e
      | Inr rd1 \<Rightarrow>
          (case parse_process_char rd1 None of
             Inl e \<Rightarrow> Inl e
           | Inr rd2 \<Rightarrow>
               if rd_state rd2 \<noteq> START_RECORD then iternext_loop rd2 ls rerr
               else Inr (rd_fields rd2, ls)))"

text \<open>
  \<open>next(reader)\<close> on a reader whose file still has the lines \<open>ls\<close> to give: the next
  row and the lines left, or the error raised.
\<close>

definition reader_next ::
  "string list \<Rightarrow> error option \<Rightarrow> error + (string list \<times> string list)" where
  "reader_next ls rerr = iternext_loop parse_reset ls rerr"

lemma iternext_loop_length:
  "iternext_loop rd ls rerr = Inr (row, rest) \<Longrightarrow> length rest \<le> length ls"
proof (induction rd ls rerr rule: iternext_loop.induct)
  case (1 rd rerr)
  then show ?case by (auto split: option.splits if_splits)
next
  case (2 rd l ls rerr)
  from "2.prems" obtain rd1 rd2 where
    s1: "process_line rd l = Inr rd1" and s2: "parse_process_char rd1 None = Inr rd2"
    by (auto split: sum.splits)
  show ?case
  proof (cases "rd_state rd2 = START_RECORD")
    case True
    with "2.prems" s1 s2 show ?thesis by simp
  next
    case False
    with "2.prems" s1 s2 have "iternext_loop rd2 ls rerr = Inr (row, rest)" by simp
    with "2.IH"[OF s1 s2 False] show ?thesis by simp
  qed
qed

lemma reader_next_shorter:
  "reader_next ls rerr = Inr (row, rest) \<Longrightarrow> length rest < length ls"
proof (cases ls)
  case Nil
  assume "reader_next ls rerr = Inr (row, rest)"
  with Nil show ?thesis
    by (simp add: reader_next_def parse_reset_def split: option.splits)
next
  case (Cons l ls')
  assume "reader_next ls rerr = Inr (row, rest)"
  with Cons have "length rest \<le> length ls'"
    by (auto simp: reader_next_def split: sum.splits if_splits
             dest: iternext_loop_length)
  with Cons show ?thesis by simp
qed

text \<open>
  All the rows a \<open>for row in reader\<close> loop sees, and how the iteration ends: \<open>None\<close> for
  \<open>StopIteration\<close>, which ends the loop, or the error that leaves it.
\<close>

function read_all :: "string list \<Rightarrow> error option \<Rightarrow> string list list \<times> error option" where
  "read_all ls rerr =
     (case reader_next ls rerr of
        Inl e \<Rightarrow> (if e = StopIteration then ([], None) else ([], Some e))
      | Inr (row, rest) \<Rightarrow>
          (case read_all rest rerr of (rows, e) \<Rightarrow> (row # rows, e)))"
  by pat_completeness auto
termination
  by (relation "measure (\<lambda>(ls, rerr). length ls)") (auto dest: reader_next_shorter)

declare read_all.simps [simp del]


section \<open>The store\<close>

text \<open>
  The database is modelled by what the two statements of the program need from SQLite.
  A table has its declared columns (name and type), its rows in insertion order, and a
  \<open>reaction\<close>: what the engine answers when a row is inserted beside the rows already
  there: \<open>None\<close> to accept it, or the error raised (an \<open>IntegrityError\<close> for a
  violated constraint, another class for any other failure of the engine).  Table and
  column names are compared without regard to ASCII case, as SQLite does.  Rows are
  kept as the text values bound to the statement.  Only ordinary tables are modelled;
  the limits of the engine (number of columns, length of a statement), its reserved
  names and a failure to open the database file are left out.
\<close>

record table =
  columns :: "(string \<times> string) list"
  rows :: "string list list"
  reaction :: "string list list \<Rightarrow> string list \<Rightarrow> error option"

type_synonym store = "string \<Rightarrow> table option"

definition ascii_lower :: "char \<Rightarrow> char" where
  "ascii_lower c =
     (case map_of (zip ''ABCDEFGHIJKLMNOPQRSTUVWXYZ'' ''abcdefghijklmnopqrstuvwxyz'') c of
        Some l \<Rightarrow> l
      | None \<Rightarrow> c)"

definition sql_key :: "string \<Rightarrow> string" where
  "sql_key name = map ascii_lower name"

definition table_rows :: "store \<Rightarrow> string \<Rightarrow> string list list" where
  "table_rows s name = (case s (sql_key name) of None \<Rightarrow> [] | Some t \<Rightarrow> rows t)"

text \<open>
  The program writes every name between double quotes.  The engine reads a quoted name
  up to the next double quote, so a name is read back as written when it holds none.
  A name that holds one ends the quoted name early, and what the engine makes of the
  rest depends on it: the model covers the names without a double quote and refuses
  the statement for the others.
\<close>

definition quote_free :: "string \<Rightarrow> bool" where
  "quote_free name = (CHR 0x22 \<notin> set name)"

text \<open>The statements the program issues, as the engine reads them.\<close>

datatype statement =
    Create_table_if_not_exists string "string list"
  | Insert_values string nat

text \<open>
  What the run does to the outside, in order: the calls on the connection, the cursor
  and the file system (\<open>log\<close>), and the lines printed (\<open>out\<close>).
\<close>

datatype event =
    Connect string
  | Open_file string
  | Execute string "string list"
  | Commit
  | Exit_commit
  | Exit_rollback

datatype message =
    Usage
  | Skipping "string list"
  | Error_inserting "string list" string

text \<open>
  The connection: \<open>durable\<close> is the committed content of the database file, \<open>working\<close>
  the content the connection sees, \<open>in_txn\<close> whether a transaction is open.  The
  transactions are those of the \<open>sqlite3\<close> module as the program uses it (Python 3.6
  or later, for its f-strings): the module begins a transaction before an \<open>INSERT\<close>
  and not before a \<open>CREATE TABLE\<close>.
\<close>

record state =
  durable :: store
  working :: store
  in_txn :: bool
  out :: "message list"
  log :: "event list"

definition print :: "state \<Rightarrow> message \<Rightarrow> state" where
  "print st m = st\<lparr>out := out st @ [m]\<rparr>"

definition record_event :: "state \<Rightarrow> event \<Rightarrow> state" where
  "record_event st ev = st\<lparr>log := log st @ [ev]\<rparr>"

definition new_table :: "string list \<Rightarrow> table" where
  "new_table header_row =
     \<lparr>columns = map (\<lambda>column. (column, ''TEXT'')) header_row,
      rows = [],
      reaction = (\<lambda>existing row. None)\<rparr>"

text \<open>
  \<open>CREATE TABLE IF NOT EXISTS "name" ("c1" TEXT, ...)\<close>.  A statement with no column,
  or with a name that holds a double quote, is refused as a syntax error, whether or not
  the table exists.  An existing table is left as it is.  A new table needs distinct
  column names.  The statement opens no transaction: outside of one it is committed at
  once, inside one it belongs to it.
\<close>

definition execute_create :: "state \<Rightarrow> string \<Rightarrow> string list \<Rightarrow> error option \<times> state" where
  "execute_create st table_name header_row =
     (if header_row = [] \<or> \<not> quote_free table_name \<or> \<not> list_all quote_free header_row
      then (Some (OperationalError ''syntax error''), st)
      else (case working st (sql_key table_name) of
              Some t \<Rightarrow> (None, st)
            | None \<Rightarrow>
                if \<not> distinct (map sql_key header_row)
                then (Some (OperationalError ''duplicate column name''), st)
                else (None,
                      st\<lparr>working := (working st)(sql_key table_name \<mapsto> new_table header_row),
                         durable := (if in_txn st then durable st
                                     else (durable st)(sql_key table_name \<mapsto>
                                            new_table header_row))\<rparr>)))"

text \<open>
  \<open>INSERT INTO "name" VALUES (?, ..., ?)\<close> with \<open>n\<close> placeholders, bound to \<open>row\<close>.
  Preparing the statement fails when the table is missing or has another number of
  columns than \<open>n\<close>; binding fails when \<open>row\<close> has not \<open>n\<close> values.  Then a transaction
  is opened if none is, and the row is stored unless the table's reaction is an error.
\<close>

definition execute_insert ::
  "state \<Rightarrow> string \<Rightarrow> nat \<Rightarrow> string list \<Rightarrow> error option \<times> state" where
  "execute_insert st table_name n row =
     (if n = 0 \<or> \<not> quote_free table_name
      then (Some (OperationalError ''syntax error''), st)
      else (case working st (sql_key table_name) of
              None \<Rightarrow> (Some (OperationalError ''no such table''), st)
            | Some t \<Rightarrow>
                if length (columns t) \<noteq> n
                then (Some (OperationalError
                        ''table has a different number of columns than values were supplied''), st)
                else if length row \<noteq> n
                then (Some (ProgrammingError ''Incorrect number of bindings supplied''), st)
                else (case reaction t (rows t) row of
                        Some e \<Rightarrow> (Some e, st\<lparr>in_txn := True\<rparr>)
                      | None \<Rightarrow>
                          (None,
                           st\<lparr>working := (working st)(sql_key table_name \<mapsto>
                                            t\<lparr>rows := rows t @ [row]\<rparr>),
                              in_txn := True\<rparr>))))"

text \<open>
  \<open>cursor.execute(sql, parameters)\<close>: the call is logged with the text the program built,
  and the statement that text is runs on the store.
\<close>

definition cursor_execute ::
  "state \<Rightarrow> string \<Rightarrow> statement \<Rightarrow> string list \<Rightarrow> error option \<times> state" where
  "cursor_execute st sql stmt parameters =
     (let st1 = record_event st (Execute sql parameters)
      in case stmt of
           Create_table_if_not_exists table_name header_row \<Rightarrow>
             execute_create st1 table_name header_row
         | Insert_values table_name n \<Rightarrow> execute_insert st1 table_name n parameters)"

text \<open>\<open>conn.commit()\<close> and \<open>conn.rollback()\<close>; outside a transaction they change nothing.\<close>

definition commit :: "state \<Rightarrow> state" where
  "commit st = (if in_txn st then st\<lparr>durable := working st, in_txn := False\<rparr> else st)"

definition rollback :: "state \<Rightarrow> state" where
  "rollback st = (if in_txn st then st\<lparr>working := durable st, in_txn := False\<rparr> else st)"

text \<open>
  Leaving \<open>with sqlite3.connect(db_name) as conn\<close>: the connection commits when the body
  ended normally and rolls back when an exception leaves it.
\<close>

definition connection_exit :: "state \<Rightarrow> error option \<Rightarrow> state" where
  "connection_exit st raised =
     (case raised of
        None \<Rightarrow> commit (record_event st Exit_commit)
      | Some e \<Rightarrow> rollback (record_event st Exit_rollback))"

section \<open>Printed text\<close>

text \<open>
  \<open>repr\<close> of a string and of a list of strings, for characters up to code point 255:
  single quotes unless the string holds a single quote and no double quote; the quote,
  the backslash, tab, newline and carriage return are escaped, other characters that
  are not printable are written \<open>\xNN\<close>.
\<close>

definition backslash :: char where
  "backslash = CHR 0x5C"

definition hex_digit :: "nat \<Rightarrow> char" where
  "hex_digit n = ''0123456789abcdef'' ! (n mod 16)"

definition hex_escape :: "char \<Rightarrow> string" where
  "hex_escape c =
     [backslash, CHR ''x'', hex_digit (of_char c div 16), hex_digit (of_char c)]"

definition repr_char :: "char \<Rightarrow> char \<Rightarrow> string" where
  "repr_char q c =
     (let n = (of_char c :: nat)
      in if c = q \<or> c = backslash then [backslash, c]
         else if c = CHR 0x09 then [backslash, CHR ''t'']
         else if c = CHR 0x0A then [backslash, CHR ''n'']
         else if c = CHR 0x0D then [backslash, CHR ''r'']
         else if n < 32 \<or> n = 127 then hex_escape c
         else if n < 127 then [c]
         else if n \<le> 160 \<or> n = 173 then hex_escape c
         else [c])"

definition repr_str :: "string \<Rightarrow> string" where
  "repr_str s =
     (let q = (if CHR 0x27 \<in> set s \<and> CHR 0x22 \<notin> set s then CHR 0x22 else CHR 0x27)
      in [q] @ concat (map (repr_char q) s) @ [q])"

text \<open>\<open>sep.join(xs)\<close>.\<close>

fun join :: "string \<Rightarrow> string list \<Rightarrow> string" where
  "join sep [] = []"
| "join sep [x] = x"
| "join sep (x # y # ys) = x @ sep @ join sep (y # ys)"

definition repr_list :: "string list \<Rightarrow> string" where
  "repr_list xs = ''['' @ join '', '' (map repr_str xs) @ '']''"

definition render :: "message \<Rightarrow> string" where
  "render m =
     (case m of
        Usage \<Rightarrow> ''Usage: python script.py database.db csv1.csv csv2.csv ...''
      | Skipping row \<Rightarrow> ''Skipping row with incorrect number of fields: '' @ repr_list row
      | Error_inserting row e \<Rightarrow>
          ''Error inserting row: '' @ repr_list row @ ''. Error: '' @ e)"

section \<open>The program\<close>

text \<open>The two statement texts, as the f-strings of the program build them.\<close>

definition create_sql :: "string \<Rightarrow> string \<Rightarrow> string" where
  "create_sql table_name column_defs =
     ''CREATE TABLE IF NOT EXISTS '' @ [CHR 0x22] @ table_name @ [CHR 0x22]
     @ '' ('' @ column_defs @ '')''"

definition insert_sql :: "string \<Rightarrow> string \<Rightarrow> string" where
  "insert_sql table_name placeholders =
     ''INSERT INTO '' @ [CHR 0x22] @ table_name @ [CHR 0x22]
     @ '' VALUES ('' @ placeholders @ '')''"

definition create_table_from_csv_header ::
  "state \<Rightarrow> string \<Rightarrow> string list \<Rightarrow> error option \<times> state" where
  "create_table_from_csv_header st table_name header_row =
     (let columns = join '', '' (map (\<lambda>column. [CHR 0x22] @ column @ [CHR 0x22] @ '' TEXT'')
                                  header_row);
          sql = create_sql table_name columns
      in cursor_execute st sql (Create_table_if_not_exists table_name header_row) [])"

text \<open>
  The loop \<open>for row in reader\<close> of \<open>insert_csv_to_table\<close>, over the rows the reader yields
  and the way its iteration ends.  Reading a row does not touch the store, so the rows
  are taken as read beforehand; an error of the reader comes after the rows before it.
\<close>

fun insert_rows ::
  "state \<Rightarrow> string \<Rightarrow> nat \<Rightarrow> string \<Rightarrow> string list list \<Rightarrow> error option
   \<Rightarrow> error option \<times> state" where
  "insert_rows st table_name num_columns placeholders [] ending = (ending, st)"
| "insert_rows st table_name num_columns placeholders (row # rest) ending =
     (if length row = num_columns then
        (case cursor_execute st (insert_sql table_name placeholders)
                (Insert_values table_name num_columns) row of
           (None, st1) \<Rightarrow> insert_rows st1 table_name num_columns placeholders rest ending
         | (Some (IntegrityError e), st1) \<Rightarrow>
             insert_rows (print st1 (Error_inserting row e))
               table_name num_columns placeholders rest ending
         | (Some err, st1) \<Rightarrow> (Some err, st1))
      else insert_rows (print st (Skipping row))
             table_name num_columns placeholders rest ending)"

definition insert_csv_to_table ::
  "filesystem \<Rightarrow> state \<Rightarrow> string \<Rightarrow> string \<Rightarrow> error option \<times> state" where
  "insert_csv_to_table fs st table_name csv_file_path =
     (let st1 = record_event st (Open_file csv_file_path)
      in case fs csv_file_path of
           Inl e \<Rightarrow> (Some e, st1)
         | Inr csvfile \<Rightarrow>
             (case reader_next (file_lines csvfile) (read_error csvfile) of
                Inl e \<Rightarrow> (Some e, st1)
              | Inr (header_row, rest) \<Rightarrow>
                  (let num_columns = length header_row;
                       placeholders = join '', '' (replicate num_columns ''?'')
                   in case read_all rest (read_error csvfile) of
                        (data_rows, ending) \<Rightarrow>
                          insert_rows st1 table_name num_columns placeholders
                            data_rows ending)))"

text \<open>The body of the loop of \<open>add_csvs_to_database\<close>, for one path.\<close>

definition process_file :: "filesystem \<Rightarrow> state \<Rightarrow> string \<Rightarrow> error option \<times> state" where
  "process_file fs st csv_file_path =
     (let table_name = sanitize_table_name csv_file_path;
          st1 = record_event st (Open_file csv_file_path)
      in case fs csv_file_path of
           Inl e \<Rightarrow> (Some e, st1)
         | Inr csvfile \<Rightarrow>
             (case reader_next (file_lines csvfile) (read_error csvfile) of
                Inl e \<Rightarrow> (Some e, st1)
              | Inr (header_row, rest) \<Rightarrow>
                  (case create_table_from_csv_header st1 table_name header_row of
                     (Some e, st2) \<Rightarrow> (Some e, st2)
                   | (None, st2) \<Rightarrow>
                       \<comment> \<open>\<open>csvfile.seek(0)\<close>, then \<open>next(reader)\<close> once more\<close>
                       (case reader_next (file_lines csvfile) (read_error csvfile) of
                          Inl e \<Rightarrow> (Some e, st2)
                        | Inr again \<Rightarrow>
                            insert_csv_to_table fs st2 table_name csv_file_path))))"

fun process_files :: "filesystem \<Rightarrow> state \<Rightarrow> string list \<Rightarrow> error option \<times> state" where
  "process_files fs st [] = (None, st)"
| "process_files fs st (csv_file_path # rest) =
     (case process_file fs st csv_file_path of
        (Some e, st1) \<Rightarrow> (Some e, st1)
      | (None, st1) \<Rightarrow> process_files fs st1 rest)"

definition add_csvs_to_database ::
  "filesystem \<Rightarrow> state \<Rightarrow> string \<Rightarrow> string list \<Rightarrow> error option \<times> state" where
  "add_csvs_to_database fs st db_name csv_file_paths =
     (case process_files fs (record_event st (Connect db_name)) csv_file_paths of
        (Some e, st1) \<Rightarrow> (Some e, connection_exit st1 (Some e))
      | (None, st1) \<Rightarrow> (None, connection_exit (commit (record_event st1 Commit)) None))"

text \<open>
  The script: \<open>argv\<close> is \<open>sys.argv\<close>, the result is the exit status with the final state.
  An exception that leaves \<open>add_csvs_to_database\<close> ends the process with status 1.
\<close>

definition main :: "filesystem \<Rightarrow> state \<Rightarrow> string list \<Rightarrow> nat \<times> state" where
  "main fs st argv =
     (if length argv < 3 then (1, print st Usage)
      else (let database_name = argv ! 1;
                csv_paths = drop 2 argv
            in case add_csvs_to_database fs st database_name csv_paths of
                 (None, st1) \<Rightarrow> (0, st1)
               | (Some e, st1) \<Rightarrow> (1, st1)))"

text \<open>A connection just opened on a database file: nothing pending, nothing printed.\<close>

definition fresh :: "store \<Rightarrow> state" where
  "fresh db = \<lparr>durable = db, working = db, in_txn = False, out = [], log = []\<rparr>"


section \<open>Notions used in the statements\<close>

text \<open>One call of \<open>cursor.execute\<close> with the insert statement, as the loop makes it.\<close>

definition insert_call ::
  "state \<Rightarrow> string \<Rightarrow> nat \<Rightarrow> string \<Rightarrow> string list \<Rightarrow> error option \<times> state" where
  "insert_call st tn n ph row = cursor_execute st (insert_sql tn ph) (Insert_values tn n) row"

text \<open>The class \<open>except sqlite3.IntegrityError\<close> catches.\<close>

definition is_integrity :: "error \<Rightarrow> bool" where
  "is_integrity e = (case e of IntegrityError m \<Rightarrow> True | _ \<Rightarrow> False)"






text \<open>The placeholders \<open>insert_csv_to_table\<close> builds for a header.\<close>

definition placeholders_of :: "string list \<Rightarrow> string" where
  "placeholders_of header_row = join '', '' (replicate (length header_row) ''?'')"

section \<open>Examples\<close>

text \<open>
  A file \<open>t.csv\<close> with a header of two columns, a repeated row and a short row; a
  store whose table \<open>t\<close> refuses a row it already holds, and one whose table \<open>t\<close>
  has three columns; the states of a run over them.
\<close>

definition newline :: string where "newline = [CHR 0x0A]"

definition unique_rows :: "string list list \<Rightarrow> string list \<Rightarrow> error option" where
  "unique_rows existing row =
     (if row \<in> set existing then Some (IntegrityError ''UNIQUE constraint failed: t.a, t.b'')
      else None)"

definition pairs_file :: text_file where
  "pairs_file = \<lparr>file_lines = [''a,b'' @ newline, ''1,x'' @ newline, ''1,x'' @ newline,
                               ''7'' @ newline, ''2,y'' @ newline],
                 read_error = None\<rparr>"

definition pairs_fs :: filesystem where
  "pairs_fs path = (if path = ''t.csv'' then Inr pairs_file else Inl FileNotFoundError)"

definition keyed_store :: store where
  "keyed_store = [''t'' \<mapsto> \<lparr>columns = [(''a'', ''TEXT''), (''b'', ''TEXT'')], rows = [],
                              reaction = unique_rows\<rparr>]"

definition wide_store :: store where
  "wide_store = [''t'' \<mapsto> \<lparr>columns = [(''a'', ''TEXT''), (''b'', ''TEXT''), (''c'', ''TEXT'')],
                             rows = [], reaction = (\<lambda>existing row. None)\<rparr>]"

definition connected :: "store \<Rightarrow> state" where
  "connected db = record_event (fresh db) (Connect ''x.db'')"

definition provisioned :: "store \<Rightarrow> state" where
  "provisioned db =
     snd (create_table_from_csv_header (record_event (connected db) (Open_file ''t.csv''))
            (sanitize_table_name ''t.csv'') [''a'', ''b''])"

definition first_stored :: "store \<Rightarrow> state" where
  "first_stored db =
     snd (insert_rows (record_event (provisioned db) (Open_file ''t.csv''))
            (sanitize_table_name ''t.csv'') (length [''a'', ''b''])
            (placeholders_of [''a'', ''b'']) [[''1'', ''x'']] None)"

definition second_refused :: "store \<Rightarrow> state" where
  "second_refused db =
     snd (insert_call (first_stored db) (sanitize_table_name ''t.csv'')
            (length [''a'', ''b'']) (placeholders_of [''a'', ''b'']) [''1'', ''x''])"

definition first_refused :: "store \<Rightarrow> state" where
  "first_refused db =
     snd (insert_call (record_event (provisioned db) (Open_file ''t.csv''))
            (sanitize_table_name ''t.csv'')
            (length [''a'', ''b'']) (placeholders_of [''a'', ''b'']) [''1'', ''x''])"

text \<open>The file of the scenario \<open>people.csv\<close>, and the run of the script over it.\<close>

definition people_file :: text_file where
  "people_file = \<lparr>file_lines = [''id,name'' @ newline, ''1,Alice'' @ newline,
                                 ''2,Bob,extra'' @ newline],
                   read_error = None\<rparr>"

definition people_fs :: filesystem where
  "people_fs path = (if path = ''people.csv'' then Inr people_file else Inl FileNotFoundError)"

definition people_run :: "nat \<times> state" where
  "people_run = main people_fs (fresh Map.empty) [''csvToDb.py'', ''store.db'', ''people.csv'']"

text \<open>The calls logged between two states of a run.\<close>

definition logged :: "state \<Rightarrow> state \<Rightarrow> event list" where
  "logged st st' = drop (length (log st)) (log st')"



text \<open>A file system with \<open>people.csv\<close> and an empty file.\<close>

definition mixed_fs :: filesystem where
  "mixed_fs path =
     (if path = ''people.csv'' then Inr people_file
      else if path = ''empty.csv'' then Inr \<lparr>file_lines = [], read_error = None\<rparr>
      else Inl FileNotFoundError)"

definition after_people :: state where
  "after_people =
     snd (process_files mixed_fs (record_event (fresh Map.empty) (Connect ''store.db''))
            [''people.csv''])"









section \<open>The table identifier\<close>

lemma rfind_notin: "c \<notin> set s \<Longrightarrow> rfind s c = -1"
  by (induction s) (auto simp: Let_def)

lemma takeWhile_rev_less:
  assumes "c \<in> set xs"
  shows "length (takeWhile (\<lambda>x. x \<noteq> c) (rev xs)) < length xs"
proof -
  have "takeWhile (\<lambda>x. x \<noteq> c) (rev xs) \<noteq> rev xs"
    using assms by (auto simp: takeWhile_eq_all_conv)
  moreover have "length (takeWhile (\<lambda>x. x \<noteq> c) (rev xs)) \<le> length (rev xs)"
    by (rule length_takeWhile_le)
  ultimately show ?thesis
    by (metis length_rev le_neq_implies_less takeWhile_eq_take take_all)
qed

lemma rfind_in:
  "c \<in> set s \<Longrightarrow>
   rfind s c = int (length s - length (takeWhile (\<lambda>x. x \<noteq> c) (rev s)) - 1)"
proof (induction s)
  case Nil
  then show ?case by simp
next
  case (Cons x xs)
  show ?case
  proof (cases "c \<in> set xs")
    case True
    then have "0 \<le> rfind xs c" using Cons.IH by simp
    moreover have "length (takeWhile (\<lambda>x. x \<noteq> c) (rev xs)) < length xs"
      using True by (rule takeWhile_rev_less)
    ultimately show ?thesis using True Cons.IH
      by (auto simp: Let_def takeWhile_append1 takeWhile_append)
  next
    case False
    then have "x = c" using Cons.prems by simp
    then show ?thesis using False by (simp add: rfind_notin takeWhile_append)
  qed
qed

lemma drop_takeWhile_rev:
  "drop (length xs - length (takeWhile P (rev xs))) xs = rev (takeWhile P (rev xs))"
proof -
  have "rev (takeWhile P (rev xs)) = rev (take (length (takeWhile P (rev xs))) (rev xs))"
    by (simp add: takeWhile_eq_take[symmetric])
  also have "\<dots> = drop (length xs - length (takeWhile P (rev xs))) xs"
    by (simp add: take_rev)
  finally show ?thesis by simp
qed

lemma basename_spec: "basename p = spec_final_segment p"
proof (cases "CHR ''/'' \<in> set p")
  case True
  have lt: "length (takeWhile (\<lambda>x. x \<noteq> CHR ''/'') (rev p)) < length p"
    using True by (rule takeWhile_rev_less)
  have "nat (rfind p CHR ''/'' + 1)
        = length p - length (takeWhile (\<lambda>x. x \<noteq> CHR ''/'') (rev p))"
    using rfind_in[OF True] lt by simp
  then show ?thesis
    by (simp add: basename_def spec_final_segment_def drop_takeWhile_rev)
next
  case False
  have tw: "takeWhile (\<lambda>x. x \<noteq> CHR ''/'') (rev p) = rev p"
    by (rule takeWhile_eq_all_conv[THEN iffD2]) (use False in auto)
  show ?thesis
    by (simp add: basename_def spec_final_segment_def rfind_notin[OF False] tw)
qed

lemma spec_final_segment_no_sep: "CHR ''/'' \<notin> set (spec_final_segment p)"
  by (auto simp: spec_final_segment_def dest: set_takeWhileD)

text \<open>The loop of \<open>splitext\<close> looks for a character other than a dot before the last dot.\<close>

lemma splitext_loop_eq:
  "0 \<le> i \<Longrightarrow> d < int (length p) \<Longrightarrow>
   splitext_loop p d i =
     (if list_ex (\<lambda>c. c \<noteq> CHR ''.'') (drop (nat i) (take (nat d) p))
      then (take (nat d) p, drop (nat d) p) else (p, []))"
proof (induction p d i rule: splitext_loop.induct)
  case (1 p d i)
  show ?case
  proof (cases "i < d")
    case False
    then have "drop (nat i) (take (nat d) p) = []" by simp
    then show ?thesis using False by (simp add: splitext_loop.simps[of p d i])
  next
    case True
    then have ilt: "nat i < length p" using "1.prems" by linarith
    have hd1: "take 1 (drop (nat i) p) = [p ! nat i]"
      using Cons_nth_drop_Suc[OF ilt, symmetric] by simp
    have dec: "drop (nat i) (take (nat d) p)
               = p ! nat i # drop (nat (i + 1)) (take (nat d) p)"
    proof -
      have l: "nat i < length (take (nat d) p)" using True ilt "1.prems" by simp
      have "drop (nat i) (take (nat d) p)
            = take (nat d) p ! nat i # drop (Suc (nat i)) (take (nat d) p)"
        using Cons_nth_drop_Suc[OF l] by simp
      moreover have "take (nat d) p ! nat i = p ! nat i" using True "1.prems" by simp
      moreover have "Suc (nat i) = nat (i + 1)" using "1.prems" by simp
      ultimately show ?thesis by simp
    qed
    show ?thesis
    proof (cases "p ! nat i = CHR ''.''")
      case c: True
      have "splitext_loop p d i = splitext_loop p d (i + 1)"
        using True c hd1 by (simp add: splitext_loop.simps[of p d i])
      also have "\<dots> = (if list_ex (\<lambda>c. c \<noteq> CHR ''.'') (drop (nat (i + 1)) (take (nat d) p))
                       then (take (nat d) p, drop (nat d) p) else (p, []))"
        using "1.IH"[OF True] c hd1 "1.prems" by simp
      finally show ?thesis using dec c by simp
    next
      case c: False
      then show ?thesis using True hd1 dec by (simp add: splitext_loop.simps[of p d i])
    qed
  qed
qed

lemma splitext_spec:
  assumes "CHR ''/'' \<notin> set s"
  shows "fst (splitext s) = spec_remove_extension s"
proof (cases "CHR ''.'' \<in> set s")
  case False
  then show ?thesis using assms
    by (simp add: splitext_def spec_remove_extension_def rfind_notin)
next
  case True
  let ?ext = "takeWhile (\<lambda>x. x \<noteq> CHR ''.'') (rev s)"
  have lt: "length ?ext < length s" using True by (rule takeWhile_rev_less)
  have d: "rfind s CHR ''.'' = int (length s - length ?ext - 1)"
    using True by (rule rfind_in)
  have dlt: "rfind s CHR ''.'' < int (length s)" using d lt by simp
  have sp: "splitext s = splitext_loop s (rfind s CHR ''.'') 0"
    using assms d by (simp add: splitext_def rfind_notin)
  have lp: "splitext_loop s (rfind s CHR ''.'') 0 =
     (if list_ex (\<lambda>c. c \<noteq> CHR ''.'') (take (nat (rfind s CHR ''.'')) s)
      then (take (nat (rfind s CHR ''.'')) s, drop (nat (rfind s CHR ''.'')) s) else (s, []))"
    using splitext_loop_eq[of 0 "rfind s CHR ''.''" s] dlt by simp
  have n: "nat (rfind s CHR ''.'') = length s - length ?ext - 1"
    using d by simp
  show ?thesis
    unfolding sp lp n using True by (simp add: spec_remove_extension_def)
qed

lemma replace_chain:
  "replace (replace (replace s CHR ''.'' CHR ''_'') CHR '' '' CHR ''_'') CHR ''-'' CHR ''_'' =
   map (\<lambda>c. if c = CHR ''.'' \<or> c = CHR '' '' \<or> c = CHR ''-'' then CHR ''_'' else c) s"
  by (simp add: replace_def)

lemma sanitize_refines: "sanitize_table_name p = spec_table_identifier p"
  by (simp add: sanitize_table_name_def spec_table_identifier_def replace_chain
      basename_spec splitext_spec spec_final_segment_no_sep)

text \<open>
  Claim C2.  For every path, \<open>sanitize_table_name\<close> returns the final path segment,
  without its last extension suffix, with every period, space and hyphen replaced by an
  underscore; so the identifier holds no period, space or hyphen.  The function is
  total: no path makes it fail, and the identifier depends on the path alone.
\<close>

theorem sanitize_table_name_spec:
  "sanitize_table_name p = spec_table_identifier p
   \<and> CHR ''.'' \<notin> set (sanitize_table_name p)
   \<and> CHR '' '' \<notin> set (sanitize_table_name p)
   \<and> CHR ''-'' \<notin> set (sanitize_table_name p)"
  by (auto simp: sanitize_refines spec_table_identifier_def)

theorem sanitize_table_name_spec_witness:
  "sanitize_table_name ''/tmp/my dir/a-1.b.csv'' = ''a_1_b''"
  using sanitize_table_name_spec[of "''/tmp/my dir/a-1.b.csv''"]
  by (simp add: spec_table_identifier_def spec_remove_extension_def spec_final_segment_def)


section \<open>Loading the rows\<close>

lemmas insert_call_defs =
  insert_call_def cursor_execute_def record_event_def execute_insert_def Let_def

lemma insert_call_durable: "durable (snd (insert_call st tn n ph row)) = durable st"
  by (simp add: insert_call_defs
           split: option.splits)


lemma insert_call_log:
  "log (snd (insert_call st tn n ph row)) = log st @ [Execute (insert_sql tn ph) row]"
  by (simp add: insert_call_defs
           split: option.splits)

lemma insert_call_other:
  "k \<noteq> sql_key tn \<Longrightarrow> working (snd (insert_call st tn n ph row)) k = working st k"
  by (simp add: insert_call_defs
           split: option.splits)

lemma insert_call_in_txn:
  "in_txn st \<Longrightarrow> in_txn (snd (insert_call st tn n ph row))"
  by (simp add: insert_call_defs
           split: option.splits)




text \<open>The loop, one row at a time.\<close>

lemma insert_rows_skip:
  "length row \<noteq> n \<Longrightarrow>
   insert_rows st tn n ph (row # rest) ending
   = insert_rows (print st (Skipping row)) tn n ph rest ending"
  by simp

lemma insert_rows_match:
  "length row = n \<Longrightarrow>
   insert_rows st tn n ph (row # rest) ending
   = (case insert_call st tn n ph row of
           (None, st1) \<Rightarrow> insert_rows st1 tn n ph rest ending
         | (Some (IntegrityError e), st1) \<Rightarrow>
             insert_rows (print st1 (Error_inserting row e)) tn n ph rest ending
         | (Some err, st1) \<Rightarrow> (Some err, st1))"
  by (simp add: insert_call_def)

declare insert_rows.simps(2) [simp del]

lemma insert_rows_ok:
  "length row = n \<Longrightarrow> insert_call st tn n ph row = (None, st1) \<Longrightarrow>
   insert_rows st tn n ph (row # rest) ending = insert_rows st1 tn n ph rest ending"
  by (simp add: insert_rows_match)

lemma insert_rows_integrity:
  "length row = n \<Longrightarrow> insert_call st tn n ph row = (Some (IntegrityError e), st1) \<Longrightarrow>
   insert_rows st tn n ph (row # rest) ending
   = insert_rows (print st1 (Error_inserting row e)) tn n ph rest ending"
  by (simp add: insert_rows_match)

lemma insert_rows_raise:
  "length row = n \<Longrightarrow> insert_call st tn n ph row = (Some err, st1) \<Longrightarrow> \<not> is_integrity err \<Longrightarrow>
   insert_rows st tn n ph (row # rest) ending = (Some err, st1)"
  by (cases err) (simp_all add: insert_rows_match is_integrity_def)

lemma insert_step_cases [case_names skip ok integrity raise]:
  obtains "length row \<noteq> n"
  | st1 where "length row = n" "insert_call st tn n ph row = (None, st1)"
  | e st1 where "length row = n" "insert_call st tn n ph row = (Some (IntegrityError e), st1)"
  | err st1 where "length row = n" "insert_call st tn n ph row = (Some err, st1)"
      "\<not> is_integrity err"
proof (cases "length row = n")
  case False then show ?thesis using that by blast
next
  case True
  obtain r st1 where c: "insert_call st tn n ph row = (r, st1)"
    by (cases "insert_call st tn n ph row") auto
  show ?thesis
  proof (cases r)
    case None then show ?thesis using that True c by blast
  next
    case (Some err)
    then show ?thesis using that True c by (cases err) (auto simp: is_integrity_def)
  qed
qed

lemma insert_rows_durable:
  "durable (snd (insert_rows st tn n ph rs ending)) = durable st"
proof (induction rs arbitrary: st)
  case Nil
  show ?case by simp
next
  case (Cons row rs)
  show ?case
  proof (cases rule: insert_step_cases[where row=row and n=n and st=st and tn=tn and ph=ph])
    case skip
    then show ?thesis using Cons.IH[of "print st (Skipping row)"]
      by (simp add: print_def insert_rows_skip)
  next
    case (ok st1)
    then show ?thesis using Cons.IH[of st1] insert_call_durable[of st tn n ph row]
      by (simp add: insert_rows_ok)
  next
    case (integrity e st1)
    then show ?thesis
      using Cons.IH[of "print st1 (Error_inserting row e)"] insert_call_durable[of st tn n ph row]
      by (simp add: insert_rows_integrity print_def)
  next
    case (raise err st1)
    then show ?thesis using insert_call_durable[of st tn n ph row]
      by (simp add: insert_rows_raise)
  qed
qed








lemma insert_rows_append:
  "insert_rows st tn n ph (xs @ ys) ending =
     (case insert_rows st tn n ph xs None of
        (None, st1) \<Rightarrow> insert_rows st1 tn n ph ys ending
      | (Some e, st1) \<Rightarrow> (Some e, st1))"
proof (induction xs arbitrary: st)
  case Nil
  show ?case by simp
next
  case (Cons row xs)
  show ?case
  proof (cases rule: insert_step_cases[where row=row and n=n and st=st and tn=tn and ph=ph])
    case skip
    then show ?thesis using Cons.IH[of "print st (Skipping row)"]
      by (simp add: insert_rows_skip)
  next
    case (ok st1)
    then show ?thesis using Cons.IH[of st1]
      by (simp add: insert_rows_ok)
  next
    case (integrity e st1)
    then show ?thesis using Cons.IH[of "print st1 (Error_inserting row e)"]
      by (simp add: insert_rows_integrity)
  next
    case (raise err st1)
    then show ?thesis by (simp add: insert_rows_raise)
  qed
qed

lemma process_files_append:
  "process_files fs st (xs @ ys) =
     (case process_files fs st xs of
        (None, st1) \<Rightarrow> process_files fs st1 ys
      | (Some e, st1) \<Rightarrow> (Some e, st1))"
proof (induction xs arbitrary: st)
  case Nil
  show ?case by simp
next
  case (Cons p xs)
  obtain r st1 where c: "process_file fs st p = (r, st1)"
    by (cases "process_file fs st p") auto
  show ?case
  proof (cases r)
    case None
    with c Cons.IH[of st1] show ?thesis by simp
  next
    case (Some e)
    with c show ?thesis by simp
  qed
qed

lemma insert_csv_to_table_unfold:
  assumes "fs p = Inr f"
    and "reader_next (file_lines f) (read_error f) = Inr (header_row, rest)"
    and "read_all rest (read_error f) = (data, ending)"
  shows "insert_csv_to_table fs st tn p =
         insert_rows (record_event st (Open_file p)) tn (length header_row)
           (placeholders_of header_row) data ending"
  using assms by (simp add: insert_csv_to_table_def placeholders_of_def Let_def)

lemma process_file_unfold:
  assumes "fs p = Inr f"
    and "reader_next (file_lines f) (read_error f) = Inr (header_row, rest)"
    and "read_all rest (read_error f) = (data, ending)"
    and "create_table_from_csv_header (record_event st (Open_file p))
           (sanitize_table_name p) header_row = (None, st2)"
  shows "process_file fs st p =
         insert_rows (record_event st2 (Open_file p)) (sanitize_table_name p)
           (length header_row) (placeholders_of header_row) data ending"
  using assms
  by (simp add: process_file_def Let_def
        insert_csv_to_table_unfold[where fs=fs and p=p and f=f and header_row=header_row
          and rest=rest and data=data and ending=ending])


lemma process_files_raise:
  "process_file fs st p = (Some e, st1) \<Longrightarrow> process_files fs st (p # later) = (Some e, st1)"
  by simp

lemma add_csvs_raise:
  "process_files fs (record_event st0 (Connect db)) paths = (Some e, st1) \<Longrightarrow>
   add_csvs_to_database fs st0 db paths = (Some e, connection_exit st1 (Some e))"
  by (simp add: add_csvs_to_database_def)

lemma main_raise:
  "add_csvs_to_database fs st0 db paths = (Some e, st1) \<Longrightarrow> paths \<noteq> [] \<Longrightarrow>
   main fs st0 (script # db # paths) = (1, st1)"
  by (cases paths) (simp_all add: main_def)

text \<open>
  Claim C3.  In the loop over the rows of a file, an \<open>IntegrityError\<close> raised by the
  insert of a well-formed row is caught: the message naming the row and the error is
  printed and the loop goes on with the rows after it.  An error of any other class
  leaves the loop, the file and \<open>add_csvs_to_database\<close>, and the script ends with
  status 1.
\<close>

theorem integrity_caught_others_propagate:
  assumes "fs p = Inr f"
    and "reader_next (file_lines f) (read_error f) = Inr (header_row, rest)"
    and "read_all rest (read_error f) = (before @ row # after, ending)"
    and "create_table_from_csv_header (record_event st (Open_file p))
           (sanitize_table_name p) header_row = (None, st2)"
    and "insert_rows (record_event st2 (Open_file p)) (sanitize_table_name p)
           (length header_row) (placeholders_of header_row) before None = (None, st3)"
    and "length row = length header_row"
    and "insert_call st3 (sanitize_table_name p) (length header_row)
           (placeholders_of header_row) row = (Some e, st4)"
    and "process_files fs (record_event st0 (Connect db)) earlier = (None, st)"
  shows "process_file fs st p =
           (case e of
              IntegrityError m \<Rightarrow>
                insert_rows (print st4 (Error_inserting row m)) (sanitize_table_name p)
                  (length header_row) (placeholders_of header_row) after ending
            | _ \<Rightarrow> (Some e, st4))
       \<and> (\<not> is_integrity e \<longrightarrow>
            add_csvs_to_database fs st0 db (earlier @ p # later)
              = (Some e, connection_exit st4 (Some e))
          \<and> main fs st0 (script # db # earlier @ p # later)
              = (1, connection_exit st4 (Some e)))"
proof -
  let ?tn = "sanitize_table_name p" and ?n = "length header_row"
    and ?ph = "placeholders_of header_row"
  have pf: "process_file fs st p =
        insert_rows (record_event st2 (Open_file p)) ?tn ?n ?ph (before @ row # after) ending"
    using assms(1-4) by (rule process_file_unfold)
  also have "\<dots> = insert_rows st3 ?tn ?n ?ph (row # after) ending"
    using assms(5) by (simp add: insert_rows_append)
  finally have loop: "process_file fs st p = insert_rows st3 ?tn ?n ?ph (row # after) ending" .
  have first: "process_file fs st p =
           (case e of
              IntegrityError m \<Rightarrow>
                insert_rows (print st4 (Error_inserting row m)) ?tn ?n ?ph after ending
            | _ \<Rightarrow> (Some e, st4))"
  proof (cases "is_integrity e")
    case True
    then obtain m where "e = IntegrityError m"
      by (cases e) (simp_all add: is_integrity_def)
    then show ?thesis using loop assms(6,7) by (simp add: insert_rows_integrity)
  next
    case False
    then have "insert_rows st3 ?tn ?n ?ph (row # after) ending = (Some e, st4)"
      using assms(6,7) by (simp add: insert_rows_raise)
    then show ?thesis using loop False by (cases e) (simp_all add: is_integrity_def)
  qed
  have second: "add_csvs_to_database fs st0 db (earlier @ p # later)
              = (Some e, connection_exit st4 (Some e))
          \<and> main fs st0 (script # db # earlier @ p # later)
              = (1, connection_exit st4 (Some e))" if ni: "\<not> is_integrity e"
  proof -
    have "process_file fs st p = (Some e, st4)"
      using loop assms(6,7) ni by (simp add: insert_rows_raise)
    then have "process_files fs st (p # later) = (Some e, st4)"
      by (rule process_files_raise)
    then have "process_files fs (record_event st0 (Connect db)) (earlier @ p # later)
               = (Some e, st4)"
      using assms(8) by (simp add: process_files_append)
    then have a: "add_csvs_to_database fs st0 db (earlier @ p # later)
               = (Some e, connection_exit st4 (Some e))"
      by (rule add_csvs_raise)
    from main_raise[OF a] a show ?thesis by simp
  qed
  from first second show ?thesis by blast
qed

section \<open>Evaluation\<close>

lemmas csv_defs = reader_next_def parse_reset_def parse_process_char_def start_field_def
  end_of_line_def parse_save_field_def parse_add_char_def is_newline_def field_limit_def
  delimiter_def quotechar_def read_all.simps
lemmas store_defs = cursor_execute_def execute_create_def execute_insert_def record_event_def
  print_def new_table_def sql_key_def ascii_lower_def quote_free_def commit_def rollback_def
  connection_exit_def Let_def table_rows_def
lemmas program_defs = create_table_from_csv_header_def create_sql_def insert_sql_def
  insert_csv_to_table_def process_file_def add_csvs_to_database_def main_def fresh_def
  placeholders_of_def insert_call_def insert_rows.simps
lemmas example_defs = newline_def unique_rows_def pairs_file_def pairs_fs_def keyed_store_def
  wide_store_def connected_def provisioned_def first_stored_def second_refused_def
  first_refused_def

lemma pair_from_fst: "fst x = a \<Longrightarrow> x = (a, snd x)"
  by (cases x) simp

lemma sanitize_t_csv: "sanitize_table_name ''t.csv'' = ''t''"
  by (simp add: sanitize_refines spec_table_identifier_def spec_remove_extension_def
        spec_final_segment_def)

lemma pairs_header:
  "reader_next (file_lines pairs_file) (read_error pairs_file)
   = Inr ([''a'', ''b''],
          [''1,x'' @ newline, ''1,x'' @ newline, ''7'' @ newline, ''2,y'' @ newline])"
  by (simp add: csv_defs example_defs)

lemma pairs_data:
  "read_all [''1,x'' @ newline, ''1,x'' @ newline, ''7'' @ newline, ''2,y'' @ newline]
     (read_error pairs_file)
   = ([[''1'', ''x''], [''1'', ''x''], [''7''], [''2'', ''y'']], None)"
  by (simp add: csv_defs example_defs)

theorem integrity_caught_others_propagate_witness:
  "process_file pairs_fs (connected keyed_store) ''t.csv''
   = insert_rows
       (print (second_refused keyed_store)
          (Error_inserting [''1'', ''x''] ''UNIQUE constraint failed: t.a, t.b''))
       (sanitize_table_name ''t.csv'') (length [''a'', ''b''])
       (placeholders_of [''a'', ''b'']) [[''7''], [''2'', ''y'']] None
   \<and> main pairs_fs (fresh wide_store) [''csvToDb.py'', ''x.db'', ''t.csv'']
       = (1, connection_exit (first_refused wide_store)
               (Some (OperationalError
                  ''table has a different number of columns than values were supplied'')))"
proof
  have f: "pairs_fs ''t.csv'' = Inr pairs_file" by (simp add: pairs_fs_def)
  have d: "read_all [''1,x'' @ newline, ''1,x'' @ newline, ''7'' @ newline, ''2,y'' @ newline]
             (read_error pairs_file)
           = ([[''1'', ''x'']] @ [''1'', ''x''] # [[''7''], [''2'', ''y'']], None)"
    using pairs_data by simp
  have c: "create_table_from_csv_header
             (record_event (connected keyed_store) (Open_file ''t.csv''))
             (sanitize_table_name ''t.csv'') [''a'', ''b''] = (None, provisioned keyed_store)"
    unfolding provisioned_def
    by (rule pair_from_fst) (simp add: sanitize_t_csv store_defs program_defs example_defs)
  have b: "insert_rows (record_event (provisioned keyed_store) (Open_file ''t.csv''))
             (sanitize_table_name ''t.csv'') (length [''a'', ''b''])
             (placeholders_of [''a'', ''b'']) [[''1'', ''x'']] None
           = (None, first_stored keyed_store)"
    unfolding first_stored_def
    by (rule pair_from_fst) (simp add: sanitize_t_csv store_defs program_defs example_defs)
  have l: "length [''1'', ''x''] = length [''a'', ''b'']" by simp
  have r: "insert_call (first_stored keyed_store) (sanitize_table_name ''t.csv'')
             (length [''a'', ''b'']) (placeholders_of [''a'', ''b'']) [''1'', ''x'']
           = (Some (IntegrityError ''UNIQUE constraint failed: t.a, t.b''),
              second_refused keyed_store)"
    unfolding second_refused_def
    by (rule pair_from_fst) (simp add: sanitize_t_csv store_defs program_defs example_defs)
  have e: "process_files pairs_fs (record_event (fresh keyed_store) (Connect ''x.db'')) []
           = (None, connected keyed_store)"
    by (simp add: connected_def)
  from integrity_caught_others_propagate[OF f pairs_header d c b l r e, THEN conjunct1]
  show "process_file pairs_fs (connected keyed_store) ''t.csv''
   = insert_rows
       (print (second_refused keyed_store)
          (Error_inserting [''1'', ''x''] ''UNIQUE constraint failed: t.a, t.b''))
       (sanitize_table_name ''t.csv'') (length [''a'', ''b''])
       (placeholders_of [''a'', ''b'']) [[''7''], [''2'', ''y'']] None"
    by (simp only: error.case)
next
  have f: "pairs_fs ''t.csv'' = Inr pairs_file" by (simp add: pairs_fs_def)
  have d: "read_all [''1,x'' @ newline, ''1,x'' @ newline, ''7'' @ newline, ''2,y'' @ newline]
             (read_error pairs_file)
           = ([] @ [''1'', ''x''] # [[''1'', ''x''], [''7''], [''2'', ''y'']], None)"
    using pairs_data by simp
  have c: "create_table_from_csv_header
             (record_event (connected wide_store) (Open_file ''t.csv''))
             (sanitize_table_name ''t.csv'') [''a'', ''b''] = (None, provisioned wide_store)"
    unfolding provisioned_def
    by (rule pair_from_fst) (simp add: sanitize_t_csv store_defs program_defs example_defs)
  have b: "insert_rows (record_event (provisioned wide_store) (Open_file ''t.csv''))
             (sanitize_table_name ''t.csv'') (length [''a'', ''b''])
             (placeholders_of [''a'', ''b'']) [] None
           = (None, record_event (provisioned wide_store) (Open_file ''t.csv''))"
    by simp
  have l: "length [''1'', ''x''] = length [''a'', ''b'']" by simp
  have r: "insert_call (record_event (provisioned wide_store) (Open_file ''t.csv''))
             (sanitize_table_name ''t.csv'')
             (length [''a'', ''b'']) (placeholders_of [''a'', ''b'']) [''1'', ''x'']
           = (Some (OperationalError
                  ''table has a different number of columns than values were supplied''),
              first_refused wide_store)"
    unfolding first_refused_def
    by (rule pair_from_fst) (simp add: sanitize_t_csv store_defs program_defs example_defs)
  have e: "process_files pairs_fs (record_event (fresh wide_store) (Connect ''x.db'')) []
           = (None, connected wide_store)"
    by (simp add: connected_def)
  have n: "\<not> is_integrity (OperationalError
                  ''table has a different number of columns than values were supplied'')"
    by (simp add: is_integrity_def)
  from integrity_caught_others_propagate[where later="[]" and script="''csvToDb.py''",
          OF f pairs_header d c b l r e, THEN conjunct2, rule_format, OF n, THEN conjunct2]
  show "main pairs_fs (fresh wide_store) [''csvToDb.py'', ''x.db'', ''t.csv'']
       = (1, connection_exit (first_refused wide_store)
               (Some (OperationalError
                  ''table has a different number of columns than values were supplied'')))"
    by simp
qed

section \<open>Provisioning a table\<close>

lemmas create_defs =
  create_table_from_csv_header_def cursor_execute_def record_event_def execute_create_def Let_def


lemma create_log:
  "log (snd (create_table_from_csv_header st tn h))
   = log st @ [Execute (create_sql tn (join '', ''
        (map (\<lambda>column. [CHR 0x22] @ column @ [CHR 0x22] @ '' TEXT'') h))) []]"
  by (simp add: create_defs split: option.splits)

lemma create_in_txn: "in_txn (snd (create_table_from_csv_header st tn h)) = in_txn st"
  by (simp add: create_defs split: option.splits)







section \<open>The command line\<close>

text \<open>
  Claim C9.  With fewer than three entries in \<open>sys.argv\<close> (no store, or no source
  file), the script prints the usage line and exits with status 1; no file is opened,
  no statement is executed and the store is not written.
\<close>

theorem usage_error:
  assumes "length argv < 3"
  shows "fst (main fs st argv) = 1
       \<and> out (snd (main fs st argv)) = out st @ [Usage]
       \<and> log (snd (main fs st argv)) = log st
       \<and> durable (snd (main fs st argv)) = durable st
       \<and> working (snd (main fs st argv)) = working st"
  using assms by (simp add: main_def print_def)

theorem usage_error_witness:
  "fst (main people_fs (fresh Map.empty) [''csvToDb.py'', ''store.db'']) = 1
   \<and> out (snd (main people_fs (fresh Map.empty) [''csvToDb.py'', ''store.db'']))
       = out (fresh Map.empty) @ [Usage]
   \<and> log (snd (main people_fs (fresh Map.empty) [''csvToDb.py'', ''store.db'']))
       = log (fresh Map.empty)
   \<and> durable (snd (main people_fs (fresh Map.empty) [''csvToDb.py'', ''store.db'']))
       = durable (fresh Map.empty)
   \<and> working (snd (main people_fs (fresh Map.empty) [''csvToDb.py'', ''store.db'']))
       = working (fresh Map.empty)"
  by (rule usage_error) simp

section \<open>The scenario \<open>people.csv\<close>\<close>

lemma sanitize_people_csv: "sanitize_table_name ''people.csv'' = ''people''"
  by (simp add: sanitize_refines spec_table_identifier_def spec_remove_extension_def
        spec_final_segment_def)

text \<open>
  Claim C8.  Importing \<open>people.csv\<close>, with the lines \<open>id,name\<close>, \<open>1,Alice\<close> and
  \<open>2,Bob,extra\<close>, into an empty store ends with status 0; the table \<open>people\<close> has
  the columns \<open>id\<close> and \<open>name\<close> and the single record \<open>(1, Alice)\<close>; the third line
  is skipped, and the one line printed names its fields \<open>2\<close>, \<open>Bob\<close>, \<open>extra\<close>.
\<close>

theorem people_scenario:
  "fst people_run = 0
   \<and> map_option columns (durable (snd people_run) ''people'')
       = Some [(''id'', ''TEXT''), (''name'', ''TEXT'')]
   \<and> table_rows (durable (snd people_run)) ''people'' = [[''1'', ''Alice'']]
   \<and> out (snd people_run) = [Skipping [''2'', ''Bob'', ''extra'']]
   \<and> map render (out (snd people_run))
       = [''Skipping row with incorrect number of fields: ''
          @ [CHR ''['', CHR 0x27] @ ''2'' @ [CHR 0x27] @ '', '' @ [CHR 0x27] @ ''Bob''
          @ [CHR 0x27] @ '', '' @ [CHR 0x27] @ ''extra'' @ [CHR 0x27, CHR '']'']]"
  by (simp add: people_run_def people_file_def people_fs_def sanitize_people_csv csv_defs
        store_defs program_defs newline_def render_def repr_list_def repr_str_def
        repr_char_def backslash_def)

section \<open>What a run keeps\<close>
















section \<open>The transaction\<close>



lemma commit_log [simp]: "log (commit st) = log st"
  by (simp add: commit_def)

lemma rollback_log [simp]: "log (rollback st) = log st"
  by (simp add: rollback_def)

lemma record_event_log [simp]: "log (record_event st ev) = log st @ [ev]"
  by (simp add: record_event_def)


text \<open>
  Claim C10.  When the turn of an empty file comes, reading its header raises
  \<open>StopIteration\<close>, which nothing catches: after the file is opened no statement is
  executed (no table is created), no later file is opened, the connection rolls back
  without a commit, and the script ends with status 1.
\<close>

theorem empty_file_aborts:
  assumes "fs p = Inr f" and "file_lines f = []" and "read_error f = None"
    and "process_files fs (record_event st0 (Connect db)) earlier = (None, st)"
  shows "process_file fs st p = (Some StopIteration, record_event st (Open_file p))
       \<and> add_csvs_to_database fs st0 db (earlier @ p # later)
           = (Some StopIteration,
              rollback (record_event (record_event st (Open_file p)) Exit_rollback))
       \<and> main fs st0 (script # db # earlier @ p # later)
           = (1, rollback (record_event (record_event st (Open_file p)) Exit_rollback))
       \<and> logged st (snd (add_csvs_to_database fs st0 db (earlier @ p # later)))
           = [Open_file p, Exit_rollback]"
proof -
  have hd: "reader_next (file_lines f) (read_error f) = Inl StopIteration"
    using assms(2,3) by (simp add: reader_next_def parse_reset_def)
  have pf: "process_file fs st p = (Some StopIteration, record_event st (Open_file p))"
    using assms(1) hd by (simp add: process_file_def Let_def)
  then have "process_files fs st (p # later)
             = (Some StopIteration, record_event st (Open_file p))"
    by (rule process_files_raise)
  then have "process_files fs (record_event st0 (Connect db)) (earlier @ p # later)
             = (Some StopIteration, record_event st (Open_file p))"
    using assms(4) by (simp add: process_files_append)
  from add_csvs_raise[OF this]
  have a: "add_csvs_to_database fs st0 db (earlier @ p # later)
           = (Some StopIteration,
              rollback (record_event (record_event st (Open_file p)) Exit_rollback))"
    by (simp add: connection_exit_def)
  have m: "main fs st0 (script # db # earlier @ p # later)
           = (1, rollback (record_event (record_event st (Open_file p)) Exit_rollback))"
    by (rule main_raise[OF a]) simp
  have l: "logged st (snd (add_csvs_to_database fs st0 db (earlier @ p # later)))
           = [Open_file p, Exit_rollback]"
    using a by (simp add: logged_def)
  from pf a m l show ?thesis by simp
qed


lemmas mixed_defs = mixed_fs_def people_file_def newline_def after_people_def

lemma people_then_stop:
  "fst (process_files mixed_fs (record_event (fresh Map.empty) (Connect ''store.db''))
          [''people.csv'']) = None"
  by (simp add: mixed_defs sanitize_people_csv csv_defs store_defs program_defs)

theorem empty_file_aborts_witness:
  "process_file mixed_fs after_people ''empty.csv''
     = (Some StopIteration, record_event after_people (Open_file ''empty.csv''))
   \<and> add_csvs_to_database mixed_fs (fresh Map.empty) ''store.db''
         ([''people.csv''] @ ''empty.csv'' # [''people.csv''])
       = (Some StopIteration,
          rollback (record_event (record_event after_people (Open_file ''empty.csv''))
                      Exit_rollback))
   \<and> main mixed_fs (fresh Map.empty)
         (''csvToDb.py'' # ''store.db'' # [''people.csv''] @ ''empty.csv'' # [''people.csv''])
       = (1, rollback (record_event (record_event after_people (Open_file ''empty.csv''))
                         Exit_rollback))
   \<and> logged after_people
         (snd (add_csvs_to_database mixed_fs (fresh Map.empty) ''store.db''
                 ([''people.csv''] @ ''empty.csv'' # [''people.csv''])))
       = [Open_file ''empty.csv'', Exit_rollback]"
proof (rule empty_file_aborts)
  show "mixed_fs ''empty.csv'' = Inr \<lparr>file_lines = [], read_error = None\<rparr>"
    by (simp add: mixed_fs_def)
  show "file_lines \<lparr>file_lines = [], read_error = None\<rparr> = []" by simp
  show "read_error \<lparr>file_lines = [], read_error = None\<rparr> = None" by simp
  show "process_files mixed_fs (record_event (fresh Map.empty) (Connect ''store.db''))
          [''people.csv''] = (None, after_people)"
    unfolding after_people_def by (rule pair_from_fst) (rule people_then_stop)
qed


section \<open>Counting the rows of a file\<close>





section \<open>A table made by the run\<close>


lemma new_table_simps [simp]:
  "rows (new_table h) = []" "reaction (new_table h) = (\<lambda>existing row. None)"
  "columns (new_table h) = map (\<lambda>column. (column, ''TEXT'')) h"
  by (simp_all add: new_table_def)



section \<open>Two files, one table\<close>


























end
